theory Spec2Isabelle
  imports Main "HOL-Library.Word"
begin

section \<open>The agent identity registry\<close>

text \<open>
  The registry is the Solidity contract \<open>AgentIdentityRegistry\<close>. Its storage is a record,
  each \<open>mapping\<close> a total function whose default is the zero value of Solidity (the zero
  address, \<open>false\<close>, the empty string, the empty byte string). \<open>msg.sender\<close> is an explicit
  argument \<open>sender\<close>. A call that reverts returns \<open>Inl\<close> of the revert reason and no state:
  the storage is what it was before the call. Emitted events are not storage and are left out.
  A \<open>require\<close> with a message reverts with \<open>Require\<close> of that message; the other errors
  are the custom errors of the inherited token and the overflow panic of checked arithmetic.
\<close>

type_synonym address = "160 word"
type_synonym uint256 = "256 word"
type_synonym bytes = "8 word list"

datatype error =
    Require string
  | Panic_overflow
  | ReentrancyGuardReentrantCall
  | ERC721NonexistentToken uint256
  | ERC721InvalidReceiver address
  | ERC721InvalidSender address
  | ERC721IncorrectOwner address uint256 address
  | ERC721InsufficientApproval address uint256
  | ERC721InvalidApprover address
  | ERC721InvalidOperator address
  | Reverted_by_hook bytes

record registry =
  s_nextAgentId :: uint256
  s_metadata :: "uint256 \<Rightarrow> string \<Rightarrow> bytes"
  s_owners :: "uint256 \<Rightarrow> address"
  s_balances :: "address \<Rightarrow> uint256"
  s_tokenApprovals :: "uint256 \<Rightarrow> address"
  s_operatorApprovals :: "address \<Rightarrow> address \<Rightarrow> bool"
  s_tokenURIs :: "uint256 \<Rightarrow> string"
  s_entered :: bool

text \<open>
  What the registry sees of the other accounts of the chain: whether an address holds code,
  and how the \<open>onERC721Received\<close> hook of a contract at \<open>to\<close>, called with \<open>operator\<close>,
  \<open>from\<close> and \<open>tokenId\<close>, ends: it returns the selector that accepts the token, it returns
  another value, or it reverts with some return data (none when the contract has no such
  function). The hook is taken by its end only: a hook that calls back into the registry
  while it runs, to read or to write, is outside this model.
\<close>

datatype hook_answer = Returns_selector | Returns_other | Reverts bytes

record chain =
  has_code :: "address \<Rightarrow> bool"
  onERC721Received :: "address \<Rightarrow> address \<Rightarrow> address \<Rightarrow> uint256 \<Rightarrow> hook_answer"

text \<open>The state after the constructor: \<open>_nextAgentId = 1\<close>, every mapping empty.\<close>

definition constructor :: registry where
  "constructor =
     \<lparr> s_nextAgentId = 1,
       s_metadata = (\<lambda>_ _. []),
       s_owners = (\<lambda>_. 0),
       s_balances = (\<lambda>_. 0),
       s_tokenApprovals = (\<lambda>_. 0),
       s_operatorApprovals = (\<lambda>_ _. False),
       s_tokenURIs = (\<lambda>_. []),
       s_entered = False \<rparr>"

subsection \<open>The inherited ERC-721 token\<close>

text \<open>
  Modelled from the spec: the base contract \<open>ERC721URIStorage\<close> that the registry inherits
  (imported at lines 4 to 6 of the contract from the OpenZeppelin library, version 5) is not
  among the sources; only its callers and its tests are. The spec calls it the standard
  single-owner transfer and approval model: an owner per record, at most one approved
  delegate per record, cleared on transfer, and a set of operators per owner. The
  definitions of this subsection follow that standard, with the guards of the library:
  a query on a token without owner reverts, a token is never sent to the zero address, and
  a safe mint or safe transfer to a contract asks the contract's hook.
\<close>

definition ownerOf :: "registry \<Rightarrow> uint256 \<Rightarrow> error + address" where
  "ownerOf s tokenId =
     (if s_owners s tokenId = 0 then Inl (ERC721NonexistentToken tokenId)
      else Inr (s_owners s tokenId))"

definition isApprovedForAll :: "registry \<Rightarrow> address \<Rightarrow> address \<Rightarrow> bool" where
  "isApprovedForAll s owner operator = s_operatorApprovals s owner operator"

definition getApproved :: "registry \<Rightarrow> uint256 \<Rightarrow> error + address" where
  "getApproved s tokenId =
     (case ownerOf s tokenId of
        Inl e \<Rightarrow> Inl e
      | Inr _ \<Rightarrow> Inr (s_tokenApprovals s tokenId))"

definition tokenURI :: "registry \<Rightarrow> uint256 \<Rightarrow> error + string" where
  "tokenURI s tokenId =
     (case ownerOf s tokenId of
        Inl e \<Rightarrow> Inl e
      | Inr _ \<Rightarrow> Inr (s_tokenURIs s tokenId))"

definition ERC721_isAuthorized :: "registry \<Rightarrow> address \<Rightarrow> address \<Rightarrow> uint256 \<Rightarrow> bool" where
  "ERC721_isAuthorized s owner spender tokenId \<longleftrightarrow>
     spender \<noteq> 0 \<and>
     (owner = spender \<or> isApprovedForAll s owner spender \<or> s_tokenApprovals s tokenId = spender)"

definition ERC721_checkAuthorized ::
  "registry \<Rightarrow> address \<Rightarrow> address \<Rightarrow> uint256 \<Rightarrow> error + unit" where
  "ERC721_checkAuthorized s owner spender tokenId =
     (if \<not> ERC721_isAuthorized s owner spender tokenId then
        (if owner = 0 then Inl (ERC721NonexistentToken tokenId)
         else Inl (ERC721InsufficientApproval spender tokenId))
      else Inr ())"

text \<open>
  \<open>_update\<close> moves \<open>tokenId\<close> to \<open>to\<close> and returns the previous owner. With a non-zero
  \<open>auth\<close> it first checks that \<open>auth\<close> may move the token. The approval of the token is
  cleared when it had an owner; the balances are counted without overflow check, as the
  library does.
\<close>

definition ERC721_update ::
  "address \<Rightarrow> uint256 \<Rightarrow> address \<Rightarrow> registry \<Rightarrow> error + (address \<times> registry)" where
  "ERC721_update to tokenId auth s =
     (let from = s_owners s tokenId in
      case (if auth \<noteq> 0 then ERC721_checkAuthorized s from auth tokenId else Inr ()) of
        Inl e \<Rightarrow> Inl e
      | Inr _ \<Rightarrow>
          let s1 = (if from \<noteq> 0
                    then s\<lparr> s_tokenApprovals := (s_tokenApprovals s)(tokenId := 0),
                            s_balances := (s_balances s)(from := s_balances s from - 1) \<rparr>
                    else s);
              s2 = (if to \<noteq> 0
                    then s1\<lparr> s_balances := (s_balances s1)(to := s_balances s1 to + 1) \<rparr>
                    else s1)
          in Inr (from, s2\<lparr> s_owners := (s_owners s2)(tokenId := to) \<rparr>))"

definition ERC721_mint :: "address \<Rightarrow> uint256 \<Rightarrow> registry \<Rightarrow> error + registry" where
  "ERC721_mint to tokenId s =
     (if to = 0 then Inl (ERC721InvalidReceiver 0)
      else case ERC721_update to tokenId 0 s of
             Inl e \<Rightarrow> Inl e
           | Inr (previousOwner, s') \<Rightarrow>
               if previousOwner \<noteq> 0 then Inl (ERC721InvalidSender 0) else Inr s')"

text \<open>
  The check of the receiver after a safe mint or a safe transfer: an address without code
  is not asked; a contract must return the selector. Another value, or a revert without
  return data, reverts with \<open>ERC721InvalidReceiver\<close>; a revert with return data is passed on.
\<close>

definition checkOnERC721Received ::
  "chain \<Rightarrow> address \<Rightarrow> address \<Rightarrow> address \<Rightarrow> uint256 \<Rightarrow> error + unit" where
  "checkOnERC721Received env operator from to tokenId =
     (if has_code env to then
        (case onERC721Received env to operator from tokenId of
           Returns_selector \<Rightarrow> Inr ()
         | Returns_other \<Rightarrow> Inl (ERC721InvalidReceiver to)
         | Reverts reason \<Rightarrow>
             if reason = [] then Inl (ERC721InvalidReceiver to) else Inl (Reverted_by_hook reason))
      else Inr ())"

definition ERC721_safeMint ::
  "chain \<Rightarrow> address \<Rightarrow> address \<Rightarrow> uint256 \<Rightarrow> registry \<Rightarrow> error + registry" where
  "ERC721_safeMint env sender to tokenId s =
     (case ERC721_mint to tokenId s of
        Inl e \<Rightarrow> Inl e
      | Inr s' \<Rightarrow>
          (case checkOnERC721Received env sender 0 to tokenId of
             Inl e \<Rightarrow> Inl e
           | Inr _ \<Rightarrow> Inr s'))"

definition ERC721_setTokenURI :: "uint256 \<Rightarrow> string \<Rightarrow> registry \<Rightarrow> registry" where
  "ERC721_setTokenURI tokenId uri s = s\<lparr> s_tokenURIs := (s_tokenURIs s)(tokenId := uri) \<rparr>"

text \<open>
  Modelled from the spec: \<open>transferFrom\<close> of the inherited token is the ownership transfer
  of the spec, and its code is not among the sources. The caller must be the owner, the
  approved delegate or an operator of the owner; the owner becomes \<open>to\<close> and the approved
  delegate is cleared; the operators are untouched. As in the library, the transfer also
  reverts when \<open>to\<close> is the zero address and when \<open>from\<close> is not the owner.
  \<open>safeTransferFrom\<close> is the same transfer followed by the question to the receiver's hook.
\<close>

definition transferFrom ::
  "address \<Rightarrow> address \<Rightarrow> address \<Rightarrow> uint256 \<Rightarrow> registry \<Rightarrow> error + registry" where
  "transferFrom sender from to tokenId s =
     (if to = 0 then Inl (ERC721InvalidReceiver 0)
      else case ERC721_update to tokenId sender s of
             Inl e \<Rightarrow> Inl e
           | Inr (previousOwner, s') \<Rightarrow>
               if previousOwner \<noteq> from
               then Inl (ERC721IncorrectOwner from tokenId previousOwner)
               else Inr s')"

definition safeTransferFrom ::
  "chain \<Rightarrow> address \<Rightarrow> address \<Rightarrow> address \<Rightarrow> uint256 \<Rightarrow> registry \<Rightarrow> error + registry" where
  "safeTransferFrom env sender from to tokenId s =
     (case transferFrom sender from to tokenId s of
        Inl e \<Rightarrow> Inl e
      | Inr s' \<Rightarrow>
          (case checkOnERC721Received env sender from to tokenId of
             Inl e \<Rightarrow> Inl e
           | Inr _ \<Rightarrow> Inr s'))"

definition approve :: "address \<Rightarrow> address \<Rightarrow> uint256 \<Rightarrow> registry \<Rightarrow> error + registry" where
  "approve sender to tokenId s =
     (case ownerOf s tokenId of
        Inl e \<Rightarrow> Inl e
      | Inr owner \<Rightarrow>
          if sender \<noteq> 0 \<and> owner \<noteq> sender \<and> \<not> isApprovedForAll s owner sender
          then Inl (ERC721InvalidApprover sender)
          else Inr (s\<lparr> s_tokenApprovals := (s_tokenApprovals s)(tokenId := to) \<rparr>))"

definition setApprovalForAll :: "address \<Rightarrow> address \<Rightarrow> bool \<Rightarrow> registry \<Rightarrow> error + registry" where
  "setApprovalForAll sender operator approved s =
     (if operator = 0 then Inl (ERC721InvalidOperator operator)
      else Inr (s\<lparr> s_operatorApprovals :=
                     (s_operatorApprovals s)
                       (sender := (s_operatorApprovals s sender)(operator := approved)) \<rparr>))"

subsection \<open>The registry's own functions\<close>

text \<open>
  \<open>register\<close>: the \<open>nonReentrant\<close> guard, the check of the URI, the post-increment of the
  counter (checked arithmetic: it reverts at the largest value), the safe mint to the caller
  and the storing of the URI. It returns the new id with the new storage.
\<close>

definition register :: "chain \<Rightarrow> address \<Rightarrow> string \<Rightarrow> registry \<Rightarrow> error + (uint256 \<times> registry)" where
  "register env sender tokenURI' s =
     (if s_entered s then Inl ReentrancyGuardReentrantCall
      else if \<not> (length tokenURI' > 0) then Inl (Require ''TokenURI cannot be empty'')
      else
        let agentId = s_nextAgentId s in
        if agentId = - 1 then Inl Panic_overflow
        else
          (case ERC721_safeMint env sender sender agentId
                  (s\<lparr> s_entered := True, s_nextAgentId := agentId + 1 \<rparr>) of
             Inl e \<Rightarrow> Inl e
           | Inr s' \<Rightarrow>
               Inr (agentId, (ERC721_setTokenURI agentId tokenURI' s')\<lparr> s_entered := False \<rparr>)))"

text \<open>
  \<open>setAgentURI\<close> first requires the caller to be the owner, an operator of the owner or the
  approved delegate, then the URI to be non-empty. \<open>ownerOf\<close>, the first call of the
  condition, reverts for an id without owner. \<open>setMetadata\<close> requires the caller to be the
  owner or an operator of the owner. \<open>getMetadata\<close> and \<open>nextAgentId\<close> read the storage;
  the result of \<open>getMetadata\<close> is a sum as for the other functions, though the code has no
  revert on that path.
\<close>

definition setAgentURI :: "address \<Rightarrow> uint256 \<Rightarrow> string \<Rightarrow> registry \<Rightarrow> error + registry" where
  "setAgentURI sender agentId newURI s =
     (case ownerOf s agentId of
        Inl e \<Rightarrow> Inl e
      | Inr owner \<Rightarrow>
          (case getApproved s agentId of
             Inl e \<Rightarrow> Inl e
           | Inr approved \<Rightarrow>
               if \<not> (owner = sender \<or> isApprovedForAll s owner sender \<or> approved = sender)
               then Inl (Require ''Not owner or approved'')
               else if \<not> (length newURI > 0) then Inl (Require ''URI cannot be empty'')
               else Inr (ERC721_setTokenURI agentId newURI s)))"

definition setMetadata ::
  "address \<Rightarrow> uint256 \<Rightarrow> string \<Rightarrow> bytes \<Rightarrow> registry \<Rightarrow> error + registry" where
  "setMetadata sender agentId key val s =
     (case ownerOf s agentId of
        Inl e \<Rightarrow> Inl e
      | Inr owner \<Rightarrow>
          if \<not> (owner = sender \<or> isApprovedForAll s owner sender)
          then Inl (Require ''Not owner or approved'')
          else Inr (s\<lparr> s_metadata :=
                         (s_metadata s)(agentId := (s_metadata s agentId)(key := val)) \<rparr>))"

definition getMetadata :: "registry \<Rightarrow> uint256 \<Rightarrow> string \<Rightarrow> error + bytes" where
  "getMetadata s agentId key = Inr (s_metadata s agentId key)"

definition nextAgentId :: "registry \<Rightarrow> uint256" where
  "nextAgentId s = s_nextAgentId s"

subsection \<open>Calls and reachable states\<close>

text \<open>
  The state-changing functions that an account can call on the deployed registry. A state
  is reachable when a sequence of successful calls leads to it from the state after the
  constructor; \<open>msg.sender\<close> is never the zero address, and the accounts of the chain may
  differ from call to call. The functions inherited from \<open>Ownable\<close> change only the owner
  of the contract, which no function of the registry reads; they are left out.
\<close>

datatype call =
    Register string
  | SetAgentURI uint256 string
  | SetMetadata uint256 string bytes
  | TransferFrom address address uint256
  | SafeTransferFrom address address uint256
  | Approve address uint256
  | SetApprovalForAll address bool

fun exec :: "chain \<Rightarrow> address \<Rightarrow> call \<Rightarrow> registry \<Rightarrow> error + registry" where
  "exec env sender (Register uri) s = map_sum id snd (register env sender uri s)"
| "exec env sender (SetAgentURI tokenId uri) s = setAgentURI sender tokenId uri s"
| "exec env sender (SetMetadata tokenId key val) s = setMetadata sender tokenId key val s"
| "exec env sender (TransferFrom from to tokenId) s = transferFrom sender from to tokenId s"
| "exec env sender (SafeTransferFrom from to tokenId) s =
     safeTransferFrom env sender from to tokenId s"
| "exec env sender (Approve to tokenId) s = approve sender to tokenId s"
| "exec env sender (SetApprovalForAll operator approved) s =
     setApprovalForAll sender operator approved s"

inductive reachable :: "registry \<Rightarrow> bool" where
  reachable_constructor: "reachable constructor"
| reachable_call:
    "reachable s \<Longrightarrow> sender \<noteq> 0 \<Longrightarrow> exec env sender c s = Inr s' \<Longrightarrow> reachable s'"

text \<open>
  The same with the history: the successful calls so far, oldest first, each with its
  caller. \<open>writes_key\<close> says whether a call is a \<open>setMetadata\<close> of the given record and key.
\<close>

inductive traced :: "(address \<times> call) list \<Rightarrow> registry \<Rightarrow> bool" where
  traced_constructor: "traced [] constructor"
| traced_call:
    "traced h s \<Longrightarrow> sender \<noteq> 0 \<Longrightarrow> exec env sender c s = Inr s' \<Longrightarrow>
     traced (h @ [(sender, c)]) s'"

fun writes_key :: "uint256 \<Rightarrow> string \<Rightarrow> address \<times> call \<Rightarrow> bool" where
  "writes_key tokenId key (sender, SetMetadata tokenId' key' val) =
     (tokenId' = tokenId \<and> key' = key)"
| "writes_key tokenId key _ = False"

text \<open>
  The invariant of the reachable states: no call is in progress, every token with an owner
  has an id below the counter and a non-empty URI, and a token without owner has no
  approval and no metadata; the zero address has no operators.
\<close>

definition registry_inv :: "registry \<Rightarrow> bool" where
  "registry_inv s \<longleftrightarrow>
     \<not> s_entered s \<and>
     (\<forall>i. s_owners s i \<noteq> 0 \<longrightarrow> i < s_nextAgentId s) \<and>
     (\<forall>i. s_owners s i = 0 \<longrightarrow> s_tokenApprovals s i = 0) \<and>
     (\<forall>x. \<not> s_operatorApprovals s 0 x) \<and>
     (\<forall>i. s_owners s i \<noteq> 0 \<longrightarrow> s_tokenURIs s i \<noteq> []) \<and>
     (\<forall>i k. s_owners s i = 0 \<longrightarrow> s_metadata s i k = [])"

text \<open>The storage that a successful \<open>register\<close> leaves, written out.\<close>

definition registered :: "address \<Rightarrow> string \<Rightarrow> registry \<Rightarrow> registry" where
  "registered sender uri s =
     s\<lparr> s_nextAgentId := s_nextAgentId s + 1,
        s_balances := (s_balances s)(sender := s_balances s sender + 1),
        s_owners := (s_owners s)(s_nextAgentId s := sender),
        s_tokenURIs := (s_tokenURIs s)(s_nextAgentId s := uri) \<rparr>"

subsection \<open>Example chains and states\<close>

text \<open>
  A chain on which no address holds code; a chain on which address 5 is a contract without
  the hook (the call reverts without return data); and a chain on which address 5 is a
  contract whose hook returns the selector. Then the registry after account 1 registered
  its first agent, after it approved account 2 for that agent, after it stored a metadata
  value, and after it transferred the agent to account 2.
\<close>

definition plain_chain :: chain where
  "plain_chain = \<lparr> has_code = (\<lambda>_. False), onERC721Received = (\<lambda>_ _ _ _. Reverts []) \<rparr>"

definition refusing_chain :: chain where
  "refusing_chain = \<lparr> has_code = (\<lambda>a. a = 5), onERC721Received = (\<lambda>_ _ _ _. Reverts []) \<rparr>"

definition accepting_chain :: chain where
  "accepting_chain =
     \<lparr> has_code = (\<lambda>a. a = 5), onERC721Received = (\<lambda>_ _ _ _. Returns_selector) \<rparr>"

definition one_agent :: registry where
  "one_agent = registered 1 ''ipfs://a'' constructor"

definition one_agent_approved :: registry where
  "one_agent_approved = one_agent\<lparr> s_tokenApprovals := (s_tokenApprovals one_agent)(1 := 2) \<rparr>"

definition one_agent_tagged :: registry where
  "one_agent_tagged =
     one_agent\<lparr> s_metadata :=
                  (s_metadata one_agent)(1 := (s_metadata one_agent 1)(''version'' := [3])) \<rparr>"

definition moved :: "registry \<Rightarrow> registry" where
  "moved s = s\<lparr> s_balances := (s_balances s)(1 := 0, 2 := 1),
                 s_owners := (s_owners s)(1 := 2) \<rparr>"

section \<open>The updater service\<close>

text \<open>
  The updater is the TypeScript module \<open>updaterService.ts\<close>. Of the configuration object it
  reads the fields below; an unset credential or registry address is the empty string.
\<close>

record config =
  config_baseUrl :: string
  config_registryAddress :: string
  config_agentId :: nat
  config_updaterPrivateKey :: string
  config_updateIntervalHours :: nat

text \<open>The lines the module writes to the console, by their kind and their variable parts.\<close>

datatype log_entry =
    Warn_not_configured
  | Log_initialized nat
  | Log_wallet
  | Log_registry string
  | Log_agent_id nat
  | Log_updating nat
  | Log_new_uri string
  | Log_gas_price nat
  | Log_tx_submitted string
  | Log_confirmed "(nat \<times> nat) option"
  | Error_failed string

subsection \<open>Asynchronous functions\<close>

text \<open>
  An \<open>async\<close> function is a tree: it returns, throws, writes a console line and goes on,
  or awaits a promise of the network with one continuation for the value and one for the
  rejection. The three promises of the module are the fee data of the provider (the gas
  price, or \<open>null\<close>), the response of the \<open>setAgentURI\<close> transaction sent for an agent id
  and a URI (its hash), and the receipt of a transaction (block number and gas used, or
  \<open>null\<close>). \<open>await\<close> of another async function continues with its value and passes its
  rejection on; \<open>try_catch\<close> runs the handler on whatever the body throws, also after an
  await.
\<close>

datatype 'a async =
    Return 'a
  | Throw string
  | Console log_entry "'a async"
  | AwaitFeeData "nat option \<Rightarrow> 'a async" "string \<Rightarrow> 'a async"
  | AwaitSend nat string "string \<Rightarrow> 'a async" "string \<Rightarrow> 'a async"
  | AwaitReceipt string "(nat \<times> nat) option \<Rightarrow> 'a async" "string \<Rightarrow> 'a async"

primrec await :: "'a async \<Rightarrow> ('a \<Rightarrow> 'b async) \<Rightarrow> 'b async" where
  "await (Return v) f = f v"
| "await (Throw e) f = Throw e"
| "await (Console l c) f = Console l (await c f)"
| "await (AwaitFeeData k h) f = AwaitFeeData (\<lambda>v. await (k v) f) (\<lambda>e. await (h e) f)"
| "await (AwaitSend a u k h) f = AwaitSend a u (\<lambda>v. await (k v) f) (\<lambda>e. await (h e) f)"
| "await (AwaitReceipt t k h) f = AwaitReceipt t (\<lambda>v. await (k v) f) (\<lambda>e. await (h e) f)"

primrec try_catch :: "'a async \<Rightarrow> (string \<Rightarrow> 'a async) \<Rightarrow> 'a async" where
  "try_catch (Return v) handler = Return v"
| "try_catch (Throw e) handler = handler e"
| "try_catch (Console l c) handler = Console l (try_catch c handler)"
| "try_catch (AwaitFeeData k h) handler =
     AwaitFeeData (\<lambda>v. try_catch (k v) handler) (\<lambda>e. try_catch (h e) handler)"
| "try_catch (AwaitSend a u k h) handler =
     AwaitSend a u (\<lambda>v. try_catch (k v) handler) (\<lambda>e. try_catch (h e) handler)"
| "try_catch (AwaitReceipt t k h) handler =
     AwaitReceipt t (\<lambda>v. try_catch (k v) handler) (\<lambda>e. try_catch (h e) handler)"

definition provider_getFeeData :: "nat option async" where
  "provider_getFeeData = AwaitFeeData Return Throw"

definition registry_setAgentURI :: "nat \<Rightarrow> string \<Rightarrow> string async" where
  "registry_setAgentURI a u = AwaitSend a u Return Throw"

definition tx_wait :: "string \<Rightarrow> (nat \<times> nat) option async" where
  "tx_wait tx = AwaitReceipt tx Return Throw"

subsection \<open>The new URI\<close>

text \<open>
  \<open>Date.now()\<close> is an integer number of milliseconds, here the argument \<open>now\<close>. The
  version is \<open>Math.floor(now / 1000)\<close>, the floor division of HOL on \<open>int\<close>. The template
  string prints it in decimal, with a minus sign when negative (every value of the clock is
  far below the size at which JavaScript switches to the exponent notation).
\<close>

definition digit_char :: "nat \<Rightarrow> char" where
  "digit_char d = char_of (48 + d)"

function show_nat :: "nat \<Rightarrow> string" where
  "show_nat n = (if n < 10 then [digit_char n] else show_nat (n div 10) @ [digit_char (n mod 10)])"
  by pat_completeness auto
termination
  by (relation "measure id") auto

declare show_nat.simps [simp del]

definition show_int :: "int \<Rightarrow> string" where
  "show_int i = (if i < 0 then CHR ''-'' # show_nat (nat (- i)) else show_nat (nat i))"

definition version_of :: "int \<Rightarrow> int" where
  "version_of now = now div 1000"

definition newURI_of :: "config \<Rightarrow> int \<Rightarrow> string" where
  "newURI_of cfg now = config_baseUrl cfg @ ''/erc8004/metadata?v='' @ show_int (version_of now)"

subsection \<open>The functions of the module\<close>

text \<open>
  \<open>updateTokenURI\<close>: the whole body is inside \<open>try\<close>, and the handler writes the error to
  the console and returns. \<open>triggerUpdate\<close> reads the module variable \<open>registry\<close>, here
  the flag \<open>registry_defined\<close>. \<open>cron_callback\<close> is the function given to \<open>cron.schedule\<close>.
\<close>

definition updateTokenURI :: "config \<Rightarrow> int \<Rightarrow> unit async" where
  "updateTokenURI cfg now =
     try_catch
       (let newURI = newURI_of cfg now in
        Console (Log_updating (config_agentId cfg))
       (Console (Log_new_uri newURI)
       (await provider_getFeeData (\<lambda>feeData.
        Console (Log_gas_price (case feeData of None \<Rightarrow> 0 | Some gasPrice \<Rightarrow> gasPrice))
       (await (registry_setAgentURI (config_agentId cfg) newURI) (\<lambda>tx.
        Console (Log_tx_submitted tx)
       (await (tx_wait tx) (\<lambda>receipt.
        Console (Log_confirmed receipt)
       (Return ())))))))))
       (\<lambda>error. Console (Error_failed error) (Return ()))"

definition triggerUpdate :: "bool \<Rightarrow> config \<Rightarrow> int \<Rightarrow> string async" where
  "triggerUpdate registry_is_defined cfg now =
     (if \<not> registry_is_defined then Return ''Updater not configured''
      else await (updateTokenURI cfg now) (\<lambda>_. Return ''Update triggered''))"

definition cron_callback :: "config \<Rightarrow> int \<Rightarrow> unit async" where
  "cron_callback cfg now = await (updateTokenURI cfg now) (\<lambda>_. Return ())"

subsection \<open>One call, run to its end\<close>

text \<open>
  A network says how each of the three promises settles. \<open>run\<close> runs an async function
  against it to the end and gives the console lines and the settlement of the function's
  own promise: \<open>Inr\<close> the value it fulfils with, \<open>Inl\<close> the error it rejects with.
\<close>

datatype 'a settled = Fulfilled 'a | Rejected string

record network =
  fee_data :: "nat option settled"
  send_result :: "nat \<Rightarrow> string \<Rightarrow> string settled"
  receipt_of :: "string \<Rightarrow> (nat \<times> nat) option settled"

primrec run :: "network \<Rightarrow> 'a async \<Rightarrow> log_entry list \<times> (string + 'a)" where
  "run net (Return v) = ([], Inr v)"
| "run net (Throw e) = ([], Inl e)"
| "run net (Console l c) = (l # fst (run net c), snd (run net c))"
| "run net (AwaitFeeData k h) =
     (case fee_data net of Fulfilled v \<Rightarrow> run net (k v) | Rejected e \<Rightarrow> run net (h e))"
| "run net (AwaitSend a u k h) =
     (case send_result net a u of Fulfilled v \<Rightarrow> run net (k v) | Rejected e \<Rightarrow> run net (h e))"
| "run net (AwaitReceipt t k h) =
     (case receipt_of net t of Fulfilled v \<Rightarrow> run net (k v) | Rejected e \<Rightarrow> run net (h e))"

subsection \<open>The running process\<close>

text \<open>
  The process runs one turn of the event loop at a time, and calls that wait for the
  network overlap. Its state holds the module variable \<open>registry\<close> (defined or not),
  whether the cron job is scheduled, whether the warm-up timer of \<open>initUpdater\<close> is still
  to fire, the calls in flight (each suspended at an await), the console, the settlements
  that the callers of \<open>triggerUpdate\<close> received (\<open>Inr\<close> a value, \<open>Inl\<close> a rejection), and
  the rejections of timer callbacks, which nothing handles and which end a Node process.
\<close>

datatype job = Timer_job "unit async" | Manual_job "string async"

datatype request = Fee_request | Send_request nat string | Receipt_request string

fun pending_of :: "'a async \<Rightarrow> request option" where
  "pending_of (AwaitFeeData k h) = Some Fee_request"
| "pending_of (AwaitSend a u k h) = Some (Send_request a u)"
| "pending_of (AwaitReceipt t k h) = Some (Receipt_request t)"
| "pending_of _ = None"

fun job_pending :: "job \<Rightarrow> request option" where
  "job_pending (Timer_job c) = pending_of c"
| "job_pending (Manual_job c) = pending_of c"

record process =
  registry_defined :: bool
  cron_scheduled :: bool
  warmup_pending :: bool
  in_flight :: "job list"
  console :: "log_entry list"
  replies :: "(string + string) list"
  unhandled :: "string list"

definition boot :: process where
  "boot = \<lparr> registry_defined = False, cron_scheduled = False, warmup_pending = False,
            in_flight = [], console = [], replies = [], unhandled = [] \<rparr>"

text \<open>
  \<open>initUpdater\<close>: without the private key or the registry address it warns and returns.
  Otherwise it builds the provider, the wallet and the contract object, writes four lines,
  schedules the cron job and arms the warm-up timer. The libraries are not among the
  sources, so what they accept is a parameter: whether the three constructors of the
  ethers library return for the configuration (a private key that is no key makes the
  wallet's constructor throw), and whether \<open>cron.schedule\<close> accepts the expression made from
  the interval. \<open>initUpdater\<close> catches nothing: an exception of either leaves it, \<open>Inl\<close>, and
  there is no running process.
\<close>

record library =
  ethers_constructs :: "config \<Rightarrow> bool"
  cron_schedules :: "nat \<Rightarrow> bool"

datatype startup_error = Ethers_constructor_throws | Cron_schedule_throws

definition initUpdater :: "library \<Rightarrow> config \<Rightarrow> process \<Rightarrow> startup_error + process" where
  "initUpdater lib cfg st =
     (if config_updaterPrivateKey cfg = [] \<or> config_registryAddress cfg = []
      then Inr (st\<lparr> console := console st @ [Warn_not_configured] \<rparr>)
      else if \<not> ethers_constructs lib cfg then Inl Ethers_constructor_throws
      else if \<not> cron_schedules lib (config_updateIntervalHours cfg)
      then Inl Cron_schedule_throws
      else Inr (st\<lparr> registry_defined := True,
                   console := console st @
                     [Log_initialized (config_updateIntervalHours cfg), Log_wallet,
                      Log_registry (config_registryAddress cfg),
                      Log_agent_id (config_agentId cfg)],
                   cron_scheduled := True,
                   warmup_pending := True \<rparr>))"

text \<open>
  \<open>advance\<close> runs a call up to its next await or its end and collects the console lines.
  \<open>proceed\<close> does so for a job and files the result: a call that awaits takes its slot among
  the calls in flight (a new one at the end, a resumed one where it was), a finished call
  leaves. A manual call hands its settlement to its caller; the rejection of a timer
  callback is unhandled.
\<close>

primrec advance :: "'a async \<Rightarrow> log_entry list \<times> 'a async" where
  "advance (Return v) = ([], Return v)"
| "advance (Throw e) = ([], Throw e)"
| "advance (Console l c) = (l # fst (advance c), snd (advance c))"
| "advance (AwaitFeeData k h) = ([], AwaitFeeData k h)"
| "advance (AwaitSend a u k h) = ([], AwaitSend a u k h)"
| "advance (AwaitReceipt t k h) = ([], AwaitReceipt t k h)"

fun place :: "nat option \<Rightarrow> job option \<Rightarrow> job list \<Rightarrow> job list" where
  "place None None js = js"
| "place None (Some j) js = js @ [j]"
| "place (Some i) None js = take i js @ drop (Suc i) js"
| "place (Some i) (Some j) js = js[i := j]"

fun proceed :: "job \<Rightarrow> nat option \<Rightarrow> process \<Rightarrow> process" where
  "proceed (Timer_job c) slot st =
     (let st1 = st\<lparr> console := console st @ fst (advance c) \<rparr> in
      case snd (advance c) of
        Return _ \<Rightarrow> st1\<lparr> in_flight := place slot None (in_flight st1) \<rparr>
      | Throw e \<Rightarrow> st1\<lparr> in_flight := place slot None (in_flight st1),
                          unhandled := unhandled st1 @ [e] \<rparr>
      | c' \<Rightarrow> st1\<lparr> in_flight := place slot (Some (Timer_job c')) (in_flight st1) \<rparr>)"
| "proceed (Manual_job c) slot st =
     (let st1 = st\<lparr> console := console st @ fst (advance c) \<rparr> in
      case snd (advance c) of
        Return v \<Rightarrow> st1\<lparr> in_flight := place slot None (in_flight st1),
                           replies := replies st1 @ [Inr v] \<rparr>
      | Throw e \<Rightarrow> st1\<lparr> in_flight := place slot None (in_flight st1),
                          replies := replies st1 @ [Inl e] \<rparr>
      | c' \<Rightarrow> st1\<lparr> in_flight := place slot (Some (Manual_job c')) (in_flight st1) \<rparr>)"

text \<open>
  The events: the cron job fires, the warm-up timer fires, a caller invokes
  \<open>triggerUpdate\<close> (each with the reading of the clock at that moment), or the promise that
  the call in slot \<open>i\<close> awaits settles. A settlement for a slot that is empty, or of another
  kind than the call there awaits, does not occur and changes nothing.
\<close>

datatype event =
    Cron_tick int
  | Warmup_timeout int
  | Trigger_update int
  | Fee_data_settles nat "nat option settled"
  | Send_settles nat "string settled"
  | Receipt_settles nat "(nat \<times> nat) option settled"

fun fee_settled :: "'a async \<Rightarrow> nat option settled \<Rightarrow> 'a async option" where
  "fee_settled (AwaitFeeData k h) (Fulfilled v) = Some (k v)"
| "fee_settled (AwaitFeeData k h) (Rejected e) = Some (h e)"
| "fee_settled _ _ = None"

fun send_settled :: "'a async \<Rightarrow> string settled \<Rightarrow> 'a async option" where
  "send_settled (AwaitSend a u k h) (Fulfilled v) = Some (k v)"
| "send_settled (AwaitSend a u k h) (Rejected e) = Some (h e)"
| "send_settled _ _ = None"

fun receipt_settled :: "'a async \<Rightarrow> (nat \<times> nat) option settled \<Rightarrow> 'a async option" where
  "receipt_settled (AwaitReceipt t k h) (Fulfilled v) = Some (k v)"
| "receipt_settled (AwaitReceipt t k h) (Rejected e) = Some (h e)"
| "receipt_settled _ _ = None"

fun resume :: "event \<Rightarrow> job \<Rightarrow> job option" where
  "resume (Fee_data_settles i r) (Timer_job c) = map_option Timer_job (fee_settled c r)"
| "resume (Fee_data_settles i r) (Manual_job c) = map_option Manual_job (fee_settled c r)"
| "resume (Send_settles i r) (Timer_job c) = map_option Timer_job (send_settled c r)"
| "resume (Send_settles i r) (Manual_job c) = map_option Manual_job (send_settled c r)"
| "resume (Receipt_settles i r) (Timer_job c) = map_option Timer_job (receipt_settled c r)"
| "resume (Receipt_settles i r) (Manual_job c) = map_option Manual_job (receipt_settled c r)"
| "resume _ _ = None"

definition settle :: "nat \<Rightarrow> event \<Rightarrow> process \<Rightarrow> process" where
  "settle i ev st =
     (if i < length (in_flight st)
      then (case resume ev (in_flight st ! i) of
              None \<Rightarrow> st
            | Some j \<Rightarrow> proceed j (Some i) st)
      else st)"

fun step :: "config \<Rightarrow> event \<Rightarrow> process \<Rightarrow> process" where
  "step cfg (Cron_tick now) st =
     (if cron_scheduled st then proceed (Timer_job (cron_callback cfg now)) None st else st)"
| "step cfg (Warmup_timeout now) st =
     (if warmup_pending st
      then proceed (Timer_job (updateTokenURI cfg now)) None (st\<lparr> warmup_pending := False \<rparr>)
      else st)"
| "step cfg (Trigger_update now) st =
     proceed (Manual_job (triggerUpdate (registry_defined st) cfg now)) None st"
| "step cfg (Fee_data_settles i r) st = settle i (Fee_data_settles i r) st"
| "step cfg (Send_settles i r) st = settle i (Send_settles i r) st"
| "step cfg (Receipt_settles i r) st = settle i (Receipt_settles i r) st"

fun steps :: "config \<Rightarrow> event list \<Rightarrow> process \<Rightarrow> process" where
  "steps cfg [] st = st"
| "steps cfg (ev # evs) st = steps cfg evs (step cfg ev st)"

text \<open>
  The states of a running process: the state a returning \<open>initUpdater\<close> leaves at startup,
  and every state an event leads to from there.
\<close>

inductive running :: "library \<Rightarrow> config \<Rightarrow> process \<Rightarrow> bool" for lib cfg where
  running_init: "initUpdater lib cfg boot = Inr st \<Longrightarrow> running lib cfg st"
| running_step: "running lib cfg st \<Longrightarrow> running lib cfg (step cfg ev st)"

text \<open>
  A call is quiet when no settlement of its awaits makes it throw; a process is calm when
  nothing is unhandled, every call in flight is quiet and no caller received a rejection.
\<close>

primrec quiet :: "'a async \<Rightarrow> bool" where
  "quiet (Return v) = True"
| "quiet (Throw e) = False"
| "quiet (Console l c) = quiet c"
| "quiet (AwaitFeeData k h) = ((\<forall>v. quiet (k v)) \<and> (\<forall>e. quiet (h e)))"
| "quiet (AwaitSend a u k h) = ((\<forall>v. quiet (k v)) \<and> (\<forall>e. quiet (h e)))"
| "quiet (AwaitReceipt t k h) = ((\<forall>v. quiet (k v)) \<and> (\<forall>e. quiet (h e)))"

fun job_quiet :: "job \<Rightarrow> bool" where
  "job_quiet (Timer_job c) = quiet c"
| "job_quiet (Manual_job c) = quiet c"

definition calm :: "process \<Rightarrow> bool" where
  "calm st \<longleftrightarrow>
     unhandled st = [] \<and> (\<forall>j \<in> set (in_flight st). job_quiet j) \<and>
     (\<forall>r \<in> set (replies st). \<exists>v. r = Inr v)"

text \<open>
  The ways one refresh can fail: at the fee query, at the submission (after a fee answer),
  or at the confirmation (after a fee answer and a transaction hash). \<open>failing_cycle\<close> is
  the cron tick at \<open>now\<close> whose call takes slot \<open>n\<close>, followed by the settlements up to that
  failure.
\<close>

datatype failure =
    Fee_query_fails string
  | Submission_fails "nat option" string
  | Confirmation_fails "nat option" string string

fun cause :: "failure \<Rightarrow> string" where
  "cause (Fee_query_fails e) = e"
| "cause (Submission_fails g e) = e"
| "cause (Confirmation_fails g tx e) = e"

fun failing_cycle :: "int \<Rightarrow> nat \<Rightarrow> failure \<Rightarrow> event list" where
  "failing_cycle now n (Fee_query_fails e) =
     [Cron_tick now, Fee_data_settles n (Rejected e)]"
| "failing_cycle now n (Submission_fails g e) =
     [Cron_tick now, Fee_data_settles n (Fulfilled g), Send_settles n (Rejected e)]"
| "failing_cycle now n (Confirmation_fails g tx e) =
     [Cron_tick now, Fee_data_settles n (Fulfilled g), Send_settles n (Fulfilled tx),
      Receipt_settles n (Rejected e)]"

text \<open>The console lines of a refresh at \<open>now\<close> before the line of its failure.\<close>

fun lines_before :: "config \<Rightarrow> int \<Rightarrow> failure \<Rightarrow> log_entry list" where
  "lines_before cfg now (Fee_query_fails e) =
     [Log_updating (config_agentId cfg), Log_new_uri (newURI_of cfg now)]"
| "lines_before cfg now (Submission_fails g e) =
     [Log_updating (config_agentId cfg), Log_new_uri (newURI_of cfg now),
      Log_gas_price (case g of None \<Rightarrow> 0 | Some gasPrice \<Rightarrow> gasPrice)]"
| "lines_before cfg now (Confirmation_fails g tx e) =
     [Log_updating (config_agentId cfg), Log_new_uri (newURI_of cfg now),
      Log_gas_price (case g of None \<Rightarrow> 0 | Some gasPrice \<Rightarrow> gasPrice),
      Log_tx_submitted tx]"

subsection \<open>An example configuration, process and network\<close>

text \<open>
  A configuration with a well-formed private key, the address of the deployed registry and
  an interval of six hours, and a library of which only this is said: it accepts that
  configuration and that interval.
\<close>

definition demo_config :: config where
  "demo_config =
     \<lparr> config_baseUrl = ''https://api.example.com'',
       config_registryAddress = ''0x2031C13F4927E3f97Eba0066BA330927A77EB540'',
       config_agentId = 1,
       config_updaterPrivateKey =
         ''0x0123456789abcdef0123456789abcdef0123456789abcdef0123456789abcdef'',
       config_updateIntervalHours = 6 \<rparr>"

definition demo_library :: library where
  "demo_library =
     \<lparr> ethers_constructs = (\<lambda>cfg. cfg = demo_config), cron_schedules = (\<lambda>hours. hours = 6) \<rparr>"

text \<open>
  The process that \<open>initUpdater\<close> leaves with that configuration and library, and the same
  after its warm-up timer has fired, with the first refresh waiting for the fee data.
\<close>

definition started :: process where
  "started =
     boot\<lparr> registry_defined := True,
           console := [Log_initialized 6, Log_wallet,
                       Log_registry ''0x2031C13F4927E3f97Eba0066BA330927A77EB540'',
                       Log_agent_id 1],
           cron_scheduled := True,
           warmup_pending := True \<rparr>"


definition failing_network :: network where
  "failing_network =
     \<lparr> fee_data = Fulfilled (Some 5), send_result = (\<lambda>_ _. Rejected ''nonce too low''),
       receipt_of = (\<lambda>_. Fulfilled None) \<rparr>"

section \<open>Properties of the registry\<close>

subsection \<open>The invariant holds in every reachable state\<close>

lemma inv_constructor: "registry_inv constructor"
  by (simp add: registry_inv_def constructor_def)

lemma word_less_succ: "(n::uint256) \<noteq> - 1 \<Longrightarrow> i < n \<or> i = n \<Longrightarrow> i < n + 1"
proof -
  assume n: "n \<noteq> - 1" and i: "i < n \<or> i = n"
  from n have "\<not> n + 1 \<le> n" by (simp add: inc_less_eq_self_iff_eq)
  then have "n < n + 1" by simp
  with i show ?thesis by auto
qed

lemma inv_setAgentURI:
  "registry_inv s \<Longrightarrow> setAgentURI sender a u s = Inr s' \<Longrightarrow> registry_inv s'"
  by (auto simp: registry_inv_def setAgentURI_def ownerOf_def getApproved_def
        ERC721_setTokenURI_def split: if_splits sum.splits)

lemma inv_setMetadata:
  "registry_inv s \<Longrightarrow> setMetadata sender a k v s = Inr s' \<Longrightarrow> registry_inv s'"
  by (auto simp: registry_inv_def setMetadata_def ownerOf_def split: if_splits sum.splits)

lemma inv_approve:
  "registry_inv s \<Longrightarrow> approve sender to a s = Inr s' \<Longrightarrow> registry_inv s'"
  by (auto simp: registry_inv_def approve_def ownerOf_def split: if_splits sum.splits)

lemma inv_setApprovalForAll:
  "registry_inv s \<Longrightarrow> sender \<noteq> 0 \<Longrightarrow> setApprovalForAll sender to a s = Inr s' \<Longrightarrow>
   registry_inv s'"
  by (auto simp: registry_inv_def setApprovalForAll_def split: if_splits sum.splits)

lemma inv_transferFrom:
  "registry_inv s \<Longrightarrow> sender \<noteq> 0 \<Longrightarrow> transferFrom sender from to a s = Inr s' \<Longrightarrow>
   registry_inv s'"
  by (auto simp: registry_inv_def transferFrom_def ERC721_update_def ERC721_checkAuthorized_def
        ERC721_isAuthorized_def isApprovedForAll_def Let_def split: if_splits sum.splits)

lemma inv_safeTransferFrom:
  "registry_inv s \<Longrightarrow> sender \<noteq> 0 \<Longrightarrow> safeTransferFrom env sender from to a s = Inr s' \<Longrightarrow>
   registry_inv s'"
  by (auto simp: safeTransferFrom_def split: sum.splits dest: inv_transferFrom)

lemma mint_Inr_iff:
  "ERC721_mint to tokenId s = Inr s' \<longleftrightarrow>
     to \<noteq> 0 \<and> s_owners s tokenId = 0 \<and>
     s' = s\<lparr> s_balances := (s_balances s)(to := s_balances s to + 1),
              s_owners := (s_owners s)(tokenId := to) \<rparr>"
  by (auto simp: ERC721_mint_def ERC721_update_def Let_def)

lemma mint_Inl_iff:
  "ERC721_mint to tokenId s = Inl e \<longleftrightarrow>
     (to = 0 \<and> e = ERC721InvalidReceiver 0) \<or>
     (to \<noteq> 0 \<and> s_owners s tokenId \<noteq> 0 \<and> e = ERC721InvalidSender 0)"
  by (auto simp: ERC721_mint_def ERC721_update_def Let_def)

text \<open>When \<open>register\<close> succeeds, and what it then returns.\<close>

lemma register_Inr_iff:
  "register env sender uri s = Inr (a, s') \<longleftrightarrow>
     \<not> s_entered s \<and> uri \<noteq> [] \<and> s_nextAgentId s \<noteq> - 1 \<and> sender \<noteq> 0 \<and>
     s_owners s (s_nextAgentId s) = 0 \<and>
     (has_code env sender \<longrightarrow>
        onERC721Received env sender sender 0 (s_nextAgentId s) = Returns_selector) \<and>
     a = s_nextAgentId s \<and> s' = registered sender uri s"
  by (auto simp: register_def Let_def ERC721_safeMint_def ERC721_setTokenURI_def
        mint_Inr_iff mint_Inl_iff checkOnERC721Received_def registered_def
        split: sum.splits hook_answer.splits if_splits)

lemma inv_registered:
  assumes "registry_inv s" "s_nextAgentId s \<noteq> - 1" "sender \<noteq> 0" "uri \<noteq> []"
  shows "registry_inv (registered sender uri s)"
  using assms by (auto simp: registry_inv_def registered_def word_less_succ)

lemma inv_register:
  "registry_inv s \<Longrightarrow> register env sender u s = Inr (a, s') \<Longrightarrow> registry_inv s'"
  by (simp add: register_Inr_iff inv_registered)

lemma reachable_inv: "reachable s \<Longrightarrow> registry_inv s"
proof (induction rule: reachable.induct)
  case reachable_constructor
  show ?case by (rule inv_constructor)
next
  case (reachable_call s sender env c s')
  then show ?case
    by (cases c)
       (auto dest: inv_register inv_setAgentURI inv_setMetadata inv_transferFrom
          inv_safeTransferFrom inv_approve inv_setApprovalForAll
          split: sum.splits simp: map_sum_def)
qed

subsection \<open>The example states\<close>

lemmas example_defs = one_agent_def one_agent_approved_def one_agent_tagged_def moved_def
  registered_def constructor_def

lemma one_agent_registered: "register plain_chain 1 ''ipfs://a'' constructor = Inr (1, one_agent)"
  by (simp add: register_Inr_iff one_agent_def constructor_def plain_chain_def)

lemma reachable_one_agent: "reachable one_agent"
proof -
  have "exec plain_chain 1 (Register ''ipfs://a'') constructor = Inr one_agent"
    by (simp add: one_agent_registered)
  then show ?thesis
    by (rule reachable_call [OF reachable_constructor, rotated]) simp
qed

lemma one_agent_owner: "ownerOf one_agent 1 = Inr 1"
  by (simp add: ownerOf_def example_defs)

lemma one_agent_approves: "approve 1 2 1 one_agent = Inr one_agent_approved"
  by (simp add: approve_def ownerOf_def example_defs)

lemma one_agent_tags: "setMetadata 1 1 ''version'' [3] one_agent = Inr one_agent_tagged"
  by (simp add: setMetadata_def ownerOf_def example_defs)

lemma one_agent_moves: "transferFrom 1 1 2 1 one_agent = Inr (moved one_agent)"
  by (simp add: transferFrom_def ERC721_update_def ERC721_checkAuthorized_def
        ERC721_isAuthorized_def Let_def example_defs fun_eq_iff)

lemma one_agent_tagged_moves: "transferFrom 1 1 2 1 one_agent_tagged = Inr (moved one_agent_tagged)"
  by (simp add: transferFrom_def ERC721_update_def ERC721_checkAuthorized_def
        ERC721_isAuthorized_def Let_def example_defs fun_eq_iff)

subsection \<open>Registration\<close>

text \<open>
  C1, as amended. The claim says that \<open>register\<close> succeeds for every non-empty URI and every
  caller. The safe mint refuses a caller that is a contract whose hook does not accept the
  token, and the checked increment reverts at the largest counter. For every reachable
  state whose counter is below the largest value, every non-empty URI and every caller
  that is not a contract, or whose hook accepts the token (it returns the selector, and
  does not call back into the registry), \<open>register\<close> succeeds, returns the value
  \<open>nextAgentId\<close> had before the call, makes the caller the owner of that id and the URI its
  token URI, and leaves \<open>nextAgentId\<close> exactly one greater.
\<close>

theorem register_assigns_next_id:
  assumes "reachable s" and "uri \<noteq> []" and "sender \<noteq> 0"
    and "has_code env sender \<longrightarrow>
           onERC721Received env sender sender 0 (nextAgentId s) = Returns_selector"
    and "nextAgentId s \<noteq> - 1"
  shows "\<exists>s'. register env sender uri s = Inr (nextAgentId s, s') \<and>
           ownerOf s' (nextAgentId s) = Inr sender \<and>
           tokenURI s' (nextAgentId s) = Inr uri \<and>
           nextAgentId s' = nextAgentId s + 1 \<and>
           unat (nextAgentId s') = unat (nextAgentId s) + 1"
proof -
  from assms(1) have inv: "registry_inv s" by (rule reachable_inv)
  have fresh: "s_owners s (s_nextAgentId s) = 0"
    using inv by (auto simp: registry_inv_def)
  have idle: "\<not> s_entered s"
    using inv by (simp add: registry_inv_def)
  have reg: "register env sender uri s = Inr (nextAgentId s, registered sender uri s)"
    using assms fresh idle by (simp add: register_Inr_iff nextAgentId_def)
  have "1 + s_nextAgentId s \<noteq> 0"
    using assms(5) by (simp add: nextAgentId_def add_eq_0_iff)
  then have "unat (1 + s_nextAgentId s) = Suc (unat (s_nextAgentId s))"
    by (rule unatSuc)
  then have cnt: "unat (nextAgentId (registered sender uri s)) = unat (nextAgentId s) + 1"
    by (simp add: nextAgentId_def registered_def add.commute)
  show ?thesis
    using reg cnt assms(2,3)
    by (auto simp: ownerOf_def tokenURI_def nextAgentId_def registered_def)
qed

theorem register_assigns_next_id_witness:
  "reachable constructor \<and> ''ipfs://a'' \<noteq> [] \<and> (1::address) \<noteq> 0 \<and> (5::address) \<noteq> 0 \<and>
   nextAgentId constructor \<noteq> - 1 \<and> \<not> has_code plain_chain 1 \<and>
   has_code accepting_chain 5 \<and> onERC721Received accepting_chain 5 5 0 1 = Returns_selector \<and>
   (\<exists>s'. register plain_chain 1 ''ipfs://a'' constructor = Inr (1, s') \<and>
      ownerOf s' 1 = Inr 1 \<and> tokenURI s' 1 = Inr ''ipfs://a'' \<and> nextAgentId s' = 2) \<and>
   (\<exists>s'. register accepting_chain 5 ''ipfs://a'' constructor = Inr (1, s') \<and>
      ownerOf s' 1 = Inr 5 \<and> tokenURI s' 1 = Inr ''ipfs://a'' \<and> nextAgentId s' = 2)"
proof -
  have n: "nextAgentId constructor = 1" by (simp add: nextAgentId_def constructor_def)
  have p: "\<not> has_code plain_chain 1" by (simp add: plain_chain_def)
  have q: "has_code accepting_chain 5"
    "onERC721Received accepting_chain 5 5 0 1 = Returns_selector"
    by (simp_all add: accepting_chain_def)
  have h1: "has_code plain_chain 1 \<longrightarrow>
      onERC721Received plain_chain 1 1 0 (nextAgentId constructor) = Returns_selector"
    using p by simp
  have h5: "has_code accepting_chain 5 \<longrightarrow>
      onERC721Received accepting_chain 5 5 0 (nextAgentId constructor) = Returns_selector"
    using q n by simp
  show ?thesis
    using register_assigns_next_id [OF reachable_constructor _ _ h1, of "''ipfs://a''"]
      register_assigns_next_id [OF reachable_constructor _ _ h5, of "''ipfs://a''"] n p q
    by (auto simp: reachable_constructor)
qed

text \<open>
  The claim as stated fails on a freshly deployed registry: address 5 is a contract without
  the hook, and its registration with a non-empty URI reverts.
\<close>

theorem register_refused_counterexample:
  "register refusing_chain 5 ''ipfs://a'' constructor = Inl (ERC721InvalidReceiver 5)"
  by (simp add: register_def Let_def ERC721_safeMint_def mint_Inr_iff mint_Inl_iff
        checkOnERC721Received_def refusing_chain_def constructor_def split: sum.splits)

text \<open>A hook that reverts with return data: the registration reverts with that data.\<close>

lemma register_passes_hook_revert:
  assumes "has_code env sender"
    and "onERC721Received env sender sender 0 (s_nextAgentId s) = Reverts reason"
    and "reason \<noteq> []"
    and "register env sender uri s = Inl e"
    and "\<not> s_entered s" and "uri \<noteq> []" and "s_nextAgentId s \<noteq> - 1" and "sender \<noteq> 0"
    and "s_owners s (s_nextAgentId s) = 0"
  shows "e = Reverted_by_hook reason"
  using assms
  by (auto simp: register_def Let_def ERC721_safeMint_def mint_Inr_iff mint_Inl_iff
        checkOnERC721Received_def split: sum.splits if_splits)

subsection \<open>Who may write the URI and who the metadata\<close>

text \<open>
  C2. For every record \<open>r\<close> with an owner and every caller \<open>C\<close> that is the approved
  delegate of \<open>r\<close> but neither its owner nor an operator of its owner, \<open>setAgentURI\<close> by
  \<open>C\<close> with a non-empty URI succeeds and stores the URI (the metadata are as before),
  while \<open>setMetadata\<close> by \<open>C\<close> reverts with "Not owner or approved", the permission error;
  a reverted call leaves the storage, and so the metadata, as they were.
\<close>

theorem approved_delegate_asymmetry:
  assumes "ownerOf s r = Inr owner" and "getApproved s r = Inr C"
    and "C \<noteq> owner" and "\<not> isApprovedForAll s owner C" and "newURI \<noteq> []"
  shows "(\<exists>s'. setAgentURI C r newURI s = Inr s' \<and> tokenURI s' r = Inr newURI \<and>
                s_metadata s' = s_metadata s) \<and>
         setMetadata C r key val s = Inl (Require ''Not owner or approved'')"
  using assms
  by (auto simp: setAgentURI_def setMetadata_def getApproved_def tokenURI_def ownerOf_def
        ERC721_setTokenURI_def split: if_splits sum.splits)

theorem approved_delegate_asymmetry_witness:
  "ownerOf one_agent_approved 1 = Inr 1 \<and> getApproved one_agent_approved 1 = Inr 2 \<and>
   (2::address) \<noteq> 1 \<and> \<not> isApprovedForAll one_agent_approved 1 2 \<and>
   (\<exists>s'. setAgentURI 2 1 ''ipfs://b'' one_agent_approved = Inr s' \<and>
      tokenURI s' 1 = Inr ''ipfs://b'') \<and>
   setMetadata 2 1 ''agentWallet'' [1, 2] one_agent_approved =
     Inl (Require ''Not owner or approved'')"
proof -
  have o: "ownerOf one_agent_approved 1 = Inr 1"
    by (simp add: ownerOf_def example_defs)
  have a: "getApproved one_agent_approved 1 = Inr 2"
    by (simp add: getApproved_def ownerOf_def example_defs)
  have n: "\<not> isApprovedForAll one_agent_approved 1 2"
    by (simp add: isApprovedForAll_def example_defs)
  show ?thesis
    using approved_delegate_asymmetry [OF o a _ n, of "''ipfs://b''" "''agentWallet''" "[1, 2]"]
      o a n
    by auto
qed

subsection \<open>Reading metadata\<close>

text \<open>
  Only \<open>setMetadata\<close> writes the metadata, and only the value of its record and key.
\<close>

lemma setMetadata_frame:
  assumes "setMetadata sender tokenId key val s = Inr s'"
  shows "s_metadata s' tokenId key = val"
    and "(tokenId', key') \<noteq> (tokenId, key) \<Longrightarrow>
         s_metadata s' tokenId' key' = s_metadata s tokenId' key'"
  using assms by (auto simp: setMetadata_def split: sum.splits if_splits)

lemma other_calls_keep_metadata:
  "register env sender uri s = Inr (a, s') \<Longrightarrow> s_metadata s' = s_metadata s"
  "setAgentURI sender tokenId uri s = Inr s' \<Longrightarrow> s_metadata s' = s_metadata s"
  "transferFrom sender from to tokenId s = Inr s' \<Longrightarrow> s_metadata s' = s_metadata s"
  "safeTransferFrom env sender from to tokenId s = Inr s' \<Longrightarrow> s_metadata s' = s_metadata s"
  "approve sender to tokenId s = Inr s' \<Longrightarrow> s_metadata s' = s_metadata s"
  "setApprovalForAll sender operator approved s = Inr s' \<Longrightarrow> s_metadata s' = s_metadata s"
  by (auto simp: register_Inr_iff registered_def setAgentURI_def ERC721_setTokenURI_def
        getApproved_def transferFrom_def safeTransferFrom_def ERC721_update_def Let_def
        approve_def setApprovalForAll_def split: sum.splits if_splits)

lemma exec_keeps_unwritten:
  assumes "exec env sender c s = Inr s'" and "\<not> writes_key tokenId key (sender, c)"
  shows "s_metadata s' tokenId key = s_metadata s tokenId key"
proof (cases c)
  case (Register uri)
  with assms(1) obtain a where "register env sender uri s = Inr (a, s')"
    by (cases "register env sender uri s") auto
  then show ?thesis by (simp add: other_calls_keep_metadata(1))
next
  case (SetMetadata tokenId' key' val)
  with assms have "setMetadata sender tokenId' key' val s = Inr s'"
    and "(tokenId, key) \<noteq> (tokenId', key')" by auto
  then show ?thesis by (rule setMetadata_frame(2))
qed (use assms(1) in \<open>auto dest: other_calls_keep_metadata\<close>)

lemma traced_unwritten:
  "traced h s \<Longrightarrow> \<not> list_ex (writes_key tokenId key) h \<Longrightarrow> s_metadata s tokenId key = []"
proof (induction rule: traced.induct)
  case traced_constructor
  show ?case by (simp add: constructor_def)
next
  case (traced_call h s sender env c s')
  then have "s_metadata s tokenId key = []" and "\<not> writes_key tokenId key (sender, c)"
    by (simp_all add: list_ex_iff)
  with traced_call(3) show ?case by (simp add: exec_keeps_unwritten)
qed

lemma traced_reachable: "traced h s \<Longrightarrow> reachable s"
  by (induction rule: traced.induct) (auto intro: reachable.intros)

lemma reachable_traced: "reachable s \<Longrightarrow> \<exists>h. traced h s"
  by (induction rule: reachable.induct) (auto intro: traced.intros)

lemma one_agent_tagged_traced:
  "traced [(1, Register ''ipfs://a''), (1, SetMetadata 1 ''version'' [3])] one_agent_tagged"
proof -
  have "traced ([] @ [(1, Register ''ipfs://a'')]) one_agent"
    by (rule traced_call [where env = plain_chain, OF traced_constructor])
       (simp_all add: one_agent_registered)
  then have "traced (([] @ [(1, Register ''ipfs://a'')]) @ [(1, SetMetadata 1 ''version'' [3])])
               one_agent_tagged"
    by (rule traced_call [where env = plain_chain]) (simp_all add: one_agent_tags)
  then show ?thesis by simp
qed

text \<open>
  C4, as amended. The claim says that \<open>getMetadata\<close> fails with the not-found error exactly
  when the record does not exist. The function reads the mapping and has no check of the
  id. \<open>getMetadata\<close> never fails, for any id and any key, and returns the stored value.
  That value is empty for every unset key: in the state after any history of successful
  calls, for every record and key that no \<open>setMetadata\<close> of the history wrote, whatever
  other keys were written; in particular for every key of an id that does not exist and
  for every key of a record that was just registered (by a caller whose hook, if it has
  one, does not call back into the registry).
\<close>

theorem getMetadata_never_fails:
  "getMetadata s tokenId key = Inr (s_metadata s tokenId key) \<and>
   (traced h s \<and> \<not> list_ex (writes_key tokenId key) h
      \<longrightarrow> getMetadata s tokenId key = Inr []) \<and>
   (reachable s \<and> ownerOf s tokenId = Inl (ERC721NonexistentToken tokenId)
      \<longrightarrow> getMetadata s tokenId key = Inr []) \<and>
   (reachable s \<and> register env sender uri s = Inr (tokenId, s')
      \<longrightarrow> getMetadata s' tokenId key = Inr [])"
proof (intro conjI impI)
  show "getMetadata s tokenId key = Inr (s_metadata s tokenId key)"
    by (simp add: getMetadata_def)
next
  assume "traced h s \<and> \<not> list_ex (writes_key tokenId key) h"
  then have "s_metadata s tokenId key = []"
    by (auto intro: traced_unwritten)
  then show "getMetadata s tokenId key = Inr []"
    by (simp add: getMetadata_def)
next
  assume "reachable s \<and> ownerOf s tokenId = Inl (ERC721NonexistentToken tokenId)"
  then have "registry_inv s" and "s_owners s tokenId = 0"
    by (auto simp: reachable_inv ownerOf_def split: if_splits)
  then show "getMetadata s tokenId key = Inr []"
    by (simp add: registry_inv_def getMetadata_def)
next
  assume a: "reachable s \<and> register env sender uri s = Inr (tokenId, s')"
  then have "registry_inv s" by (simp add: reachable_inv)
  moreover from a have "s_owners s tokenId = 0" and "s_metadata s' = s_metadata s"
    by (auto simp: register_Inr_iff registered_def)
  ultimately show "getMetadata s' tokenId key = Inr []"
    by (simp add: registry_inv_def getMetadata_def)
qed

theorem getMetadata_never_fails_witness:
  "traced [(1, Register ''ipfs://a''), (1, SetMetadata 1 ''version'' [3])] one_agent_tagged \<and>
   \<not> list_ex (writes_key 1 ''agentWallet'')
       [(1, Register ''ipfs://a''), (1, SetMetadata 1 ''version'' [3])] \<and>
   getMetadata one_agent_tagged 1 ''version'' = Inr [3] \<and>
   getMetadata one_agent_tagged 1 ''agentWallet'' = Inr [] \<and>
   reachable constructor \<and>
   ownerOf constructor 1 = Inl (ERC721NonexistentToken 1) \<and>
   getMetadata constructor 1 ''version'' = Inr [] \<and>
   register plain_chain 1 ''ipfs://a'' constructor = Inr (1, one_agent) \<and>
   getMetadata one_agent 1 ''version'' = Inr []"
proof -
  have o: "ownerOf constructor 1 = Inl (ERC721NonexistentToken 1)"
    by (simp add: ownerOf_def constructor_def)
  have u: "\<not> list_ex (writes_key 1 ''agentWallet'')
       [(1, Register ''ipfs://a''), (1, SetMetadata 1 ''version'' [3])]"
    by simp
  have v: "getMetadata one_agent_tagged 1 ''version'' = Inr [3]"
    by (simp add: getMetadata_def example_defs)
  have w: "getMetadata one_agent_tagged 1 ''agentWallet'' = Inr []"
    using getMetadata_never_fails
        [of one_agent_tagged 1 "''agentWallet''"
            "[(1, Register ''ipfs://a''), (1, SetMetadata 1 ''version'' [3])]"
            plain_chain 1 "''ipfs://a''" one_agent]
      one_agent_tagged_traced u
    by blast
  have c: "getMetadata constructor 1 ''version'' = Inr []"
    "getMetadata one_agent 1 ''version'' = Inr []"
    using getMetadata_never_fails
        [of constructor 1 "''version''" "[]" plain_chain 1 "''ipfs://a''" one_agent]
      o reachable_constructor one_agent_registered
    by blast+
  show ?thesis
    using o u v w c one_agent_tagged_traced reachable_constructor one_agent_registered
    by simp
qed

text \<open>
  The claim as stated fails on a freshly deployed registry: no record 999 exists, and
  reading its metadata returns the empty value instead of failing.
\<close>

theorem getMetadata_missing_record_counterexample:
  "ownerOf constructor 999 = Inl (ERC721NonexistentToken 999) \<and>
   getMetadata constructor 999 ''agentWallet'' = Inr []"
  by (simp add: ownerOf_def getMetadata_def constructor_def)

subsection \<open>Ownership transfer\<close>

text \<open>
  C5. The transfer of the spec is \<open>transferFrom\<close> of the inherited token. For every record
  with owner \<open>from\<close> and every principal \<open>X\<close>, after a transfer to \<open>X\<close> the owner of the
  record is \<open>X\<close> and its approved delegate is cleared (the zero address). A later
  \<open>setAgentURI\<close> or \<open>setMetadata\<close> by the previous owner, who holds no other capability
  (it is not \<open>X\<close> and not an operator of \<open>X\<close>), reverts with "Not owner or approved", the
  permission error, whatever its arguments, while the same call by \<open>X\<close> succeeds:
  \<open>setMetadata\<close> always, \<open>setAgentURI\<close> for every URI that is not empty (an empty URI is
  refused to every caller).
\<close>

theorem transfer_moves_authorization:
  assumes "ownerOf s tokenId = Inr from"
    and "transferFrom sender from X tokenId s = Inr s'"
    and "from \<noteq> X" and "\<not> isApprovedForAll s' X from"
  shows "ownerOf s' tokenId = Inr X \<and> getApproved s' tokenId = Inr 0 \<and>
         setAgentURI from tokenId newURI s' = Inl (Require ''Not owner or approved'') \<and>
         setMetadata from tokenId key val s' = Inl (Require ''Not owner or approved'') \<and>
         (newURI \<noteq> [] \<longrightarrow>
            (\<exists>t. setAgentURI X tokenId newURI s' = Inr t \<and> tokenURI t tokenId = Inr newURI)) \<and>
         (\<exists>t. setMetadata X tokenId key val s' = Inr t \<and> getMetadata t tokenId key = Inr val)"
proof -
  from assms(1) have f: "s_owners s tokenId = from" "from \<noteq> 0"
    by (auto simp: ownerOf_def split: if_splits)
  from assms(2) have x: "X \<noteq> 0"
    by (auto simp: transferFrom_def split: if_splits)
  from assms(2) f x have s': "s_owners s' tokenId = X" "s_tokenApprovals s' tokenId = 0"
    "s_operatorApprovals s' = s_operatorApprovals s"
    by (auto simp: transferFrom_def ERC721_update_def Let_def split: if_splits sum.splits)
  show ?thesis
    using s' f x assms(3,4)
    by (auto simp: ownerOf_def getApproved_def setAgentURI_def setMetadata_def tokenURI_def
          getMetadata_def isApprovedForAll_def ERC721_setTokenURI_def)
qed

theorem transfer_moves_authorization_witness:
  "ownerOf one_agent 1 = Inr 1 \<and> transferFrom 1 1 2 1 one_agent = Inr (moved one_agent) \<and>
   (1::address) \<noteq> 2 \<and> \<not> isApprovedForAll (moved one_agent) 2 1 \<and>
   ownerOf (moved one_agent) 1 = Inr 2 \<and> getApproved (moved one_agent) 1 = Inr 0 \<and>
   setAgentURI 1 1 ''ipfs://c'' (moved one_agent) = Inl (Require ''Not owner or approved'') \<and>
   setMetadata 1 1 ''version'' [3] (moved one_agent) = Inl (Require ''Not owner or approved'') \<and>
   (\<exists>t. setAgentURI 2 1 ''ipfs://c'' (moved one_agent) = Inr t \<and>
        tokenURI t 1 = Inr ''ipfs://c'') \<and>
   (\<exists>t. setMetadata 2 1 ''version'' [3] (moved one_agent) = Inr t \<and>
        getMetadata t 1 ''version'' = Inr [3])"
proof -
  have n: "\<not> isApprovedForAll (moved one_agent) 2 1"
    by (simp add: isApprovedForAll_def example_defs)
  show ?thesis
    using transfer_moves_authorization [OF one_agent_owner one_agent_moves _ n,
        of "''ipfs://c''" "''version''" "[3]"]
      one_agent_owner one_agent_moves n
    by simp
qed

subsection \<open>The URI of a record is never empty\<close>

text \<open>
  C6, as amended. The claim says that every update with an empty URI fails with the
  validation error. \<open>setAgentURI\<close> checks the caller before the URI. In every reachable
  state: \<open>register\<close> with an empty URI reverts with "TokenURI cannot be empty" (nothing is
  stored, the counter is as before); \<open>setAgentURI\<close> with an empty URI always reverts (the
  stored URI is as before), with the error of a missing token when the id has no record,
  with "Not owner or approved" when the caller is neither the owner nor an operator of the
  owner nor the approved delegate, and with "URI cannot be empty" otherwise; and the URI
  of every record with an owner is non-empty. The reachable states are those between calls:
  a receiver hook that calls back while \<open>register\<close> runs is asked after the mint and before
  the URI is stored, and what it reads then is outside this statement.
\<close>

theorem pointer_never_empty:
  assumes "reachable s"
  shows "register env sender [] s = Inl (Require ''TokenURI cannot be empty'') \<and>
         setAgentURI sender tokenId [] s =
           (case ownerOf s tokenId of
              Inl e \<Rightarrow> Inl (ERC721NonexistentToken tokenId)
            | Inr owner \<Rightarrow>
                if owner = sender \<or> isApprovedForAll s owner sender \<or>
                   getApproved s tokenId = Inr sender
                then Inl (Require ''URI cannot be empty'')
                else Inl (Require ''Not owner or approved'')) \<and>
         (ownerOf s tokenId = Inr owner \<longrightarrow> (\<exists>p. tokenURI s tokenId = Inr p \<and> p \<noteq> []))"
proof -
  from assms have inv: "registry_inv s" by (rule reachable_inv)
  then have "register env sender [] s = Inl (Require ''TokenURI cannot be empty'')"
    by (simp add: register_def registry_inv_def)
  moreover have "setAgentURI sender tokenId [] s =
           (case ownerOf s tokenId of
              Inl e \<Rightarrow> Inl (ERC721NonexistentToken tokenId)
            | Inr owner \<Rightarrow>
                if owner = sender \<or> isApprovedForAll s owner sender \<or>
                   getApproved s tokenId = Inr sender
                then Inl (Require ''URI cannot be empty'')
                else Inl (Require ''Not owner or approved''))"
    by (auto simp: setAgentURI_def getApproved_def ownerOf_def split: sum.splits)
  moreover have "ownerOf s tokenId = Inr owner \<longrightarrow>
      (\<exists>p. tokenURI s tokenId = Inr p \<and> p \<noteq> [])"
    using inv by (auto simp: tokenURI_def ownerOf_def registry_inv_def split: if_splits)
  ultimately show ?thesis by blast
qed

theorem pointer_never_empty_witness:
  "reachable one_agent \<and> ownerOf one_agent 1 = Inr 1 \<and>
   ownerOf one_agent 7 = Inl (ERC721NonexistentToken 7) \<and>
   register plain_chain 1 [] one_agent = Inl (Require ''TokenURI cannot be empty'') \<and>
   setAgentURI 1 7 [] one_agent = Inl (ERC721NonexistentToken 7) \<and>
   setAgentURI 2 1 [] one_agent = Inl (Require ''Not owner or approved'') \<and>
   setAgentURI 1 1 [] one_agent = Inl (Require ''URI cannot be empty'') \<and>
   (\<exists>p. tokenURI one_agent 1 = Inr p \<and> p \<noteq> [])"
proof -
  have m: "ownerOf one_agent 7 = Inl (ERC721NonexistentToken 7)"
    by (simp add: ownerOf_def example_defs)
  have a: "\<not> isApprovedForAll one_agent 1 2" "getApproved one_agent 1 = Inr 0"
    by (simp_all add: isApprovedForAll_def getApproved_def ownerOf_def example_defs)
  show ?thesis
    using pointer_never_empty [OF reachable_one_agent, of plain_chain 1 1 1]
      pointer_never_empty [OF reachable_one_agent, of plain_chain 2 1 1]
      pointer_never_empty [OF reachable_one_agent, of plain_chain 1 7 1]
      reachable_one_agent one_agent_owner m a
    by simp
qed

text \<open>
  The claim as stated fails after the first registration: account 2 has no permission on
  record 1, and its update with the empty URI reverts with the permission error, not with
  the validation error.
\<close>

theorem empty_update_unauthorised_counterexample:
  "setAgentURI 2 1 [] one_agent = Inl (Require ''Not owner or approved'') \<and>
   setAgentURI 2 1 [] one_agent \<noteq> Inl (Require ''URI cannot be empty'')"
  by (simp add: setAgentURI_def getApproved_def ownerOf_def isApprovedForAll_def example_defs)

subsection \<open>A transfer keeps the metadata\<close>

text \<open>
  C7. A transfer (\<open>transferFrom\<close> or \<open>safeTransferFrom\<close>) does not touch the metadata: for
  every record and every key, \<open>getMetadata\<close> returns after the transfer what it returned
  before, so the new owner finds every value the previous owners stored.
\<close>

theorem transfer_keeps_metadata:
  assumes "transferFrom sender from to tokenId s = Inr s' \<or>
           safeTransferFrom env sender from to tokenId s = Inr s'"
  shows "getMetadata s' anyId key = getMetadata s anyId key"
proof -
  have "transferFrom sender from to tokenId s = Inr s'"
    using assms by (auto simp: safeTransferFrom_def split: sum.splits)
  then have "s_metadata s' = s_metadata s"
    by (auto simp: transferFrom_def ERC721_update_def Let_def split: if_splits sum.splits)
  then show ?thesis by (simp add: getMetadata_def)
qed

theorem transfer_keeps_metadata_witness:
  "transferFrom 1 1 2 1 one_agent_tagged = Inr (moved one_agent_tagged) \<and>
   getMetadata one_agent_tagged 1 ''version'' = Inr [3] \<and>
   getMetadata (moved one_agent_tagged) 1 ''version'' = Inr [3]"
proof -
  have "getMetadata one_agent_tagged 1 ''version'' = Inr [3]"
    by (simp add: getMetadata_def example_defs)
  then show ?thesis
    using transfer_keeps_metadata
        [of 1 1 2 1 one_agent_tagged "moved one_agent_tagged" plain_chain 1 "''version''"]
      one_agent_tagged_moves
    by simp
qed

section \<open>Properties of the updater\<close>

subsection \<open>The decimal form of the version\<close>

lemma digit_char_inj: "d < 10 \<Longrightarrow> d' < 10 \<Longrightarrow> digit_char d = digit_char d' \<Longrightarrow> d = d'"
proof -
  assume a: "d < 10" "d' < 10" "digit_char d = digit_char d'"
  then have "(of_char (digit_char d) :: nat) = of_char (digit_char d')" by simp
  with a(1,2) show ?thesis by (simp add: digit_char_def)
qed

lemma digit_char_not_minus: "d < 10 \<Longrightarrow> digit_char d \<noteq> CHR ''-''"
proof
  assume a: "d < 10" "digit_char d = CHR ''-''"
  then have "(of_char (digit_char d) :: nat) = of_char (CHR ''-'')" by simp
  with a(1) show False by (simp add: digit_char_def)
qed

lemma show_nat_nonempty: "show_nat n \<noteq> []"
  by (subst show_nat.simps) simp

lemma show_nat_hd: "hd (show_nat n) \<noteq> CHR ''-''"
proof (induction n rule: show_nat.induct)
  case (1 n)
  show ?case
  proof (cases "n < 10")
    case True
    then show ?thesis by (subst show_nat.simps) (simp add: digit_char_not_minus)
  next
    case False
    with 1 show ?thesis by (subst show_nat.simps) (simp add: show_nat_nonempty)
  qed
qed

lemma show_nat_inj: "show_nat m = show_nat n \<Longrightarrow> m = n"
proof (induction m arbitrary: n rule: show_nat.induct)
  case (1 m)
  show ?case
  proof (cases "m < 10")
    case m: True
    show ?thesis
    proof (cases "n < 10")
      case True
      with m 1(2) show ?thesis
        by (simp add: show_nat.simps [of m] show_nat.simps [of n] digit_char_inj)
    next
      case False
      with m 1(2) show_nat_nonempty [of "n div 10"] show ?thesis
        by (auto simp: show_nat.simps [of m] show_nat.simps [of n])
    qed
  next
    case m: False
    show ?thesis
    proof (cases "n < 10")
      case True
      with m 1(2) show ?thesis
        by (simp add: show_nat.simps [of m] show_nat.simps [of n] show_nat_nonempty)
    next
      case False
      with m 1(2) have "show_nat (m div 10) = show_nat (n div 10)"
        and d: "digit_char (m mod 10) = digit_char (n mod 10)"
        by (simp_all add: show_nat.simps [of m] show_nat.simps [of n])
      with 1(1) m have "m div 10 = n div 10" by simp
      moreover from d have "m mod 10 = n mod 10" by (simp add: digit_char_inj)
      ultimately show ?thesis by (metis div_mult_mod_eq)
    qed
  qed
qed

lemma show_int_inj: "show_int i = show_int j \<Longrightarrow> i = j"
proof -
  assume a: "show_int i = show_int j"
  have neg: "CHR ''-'' # xs \<noteq> show_nat n" for xs n
    using show_nat_hd [of n] by (metis list.sel(1))
  show ?thesis
  proof (cases "i < 0")
    case i: True
    show ?thesis
    proof (cases "j < 0")
      case True
      with i a have "nat (- i) = nat (- j)" by (simp add: show_int_def show_nat_inj)
      with i True show ?thesis by simp
    next
      case False
      with i a neg show ?thesis by (simp add: show_int_def)
    qed
  next
    case i: False
    show ?thesis
    proof (cases "j < 0")
      case True
      with i a neg [of "show_nat (nat (- j))" "nat i"] show ?thesis by (simp add: show_int_def)
    next
      case False
      with i a have "nat i = nat j" by (simp add: show_int_def show_nat_inj)
      with i False show ?thesis by simp
    qed
  qed
qed

lemma newURI_eq_iff:
  "newURI_of cfg t1 = newURI_of cfg t2 \<longleftrightarrow> version_of t1 = version_of t2"
  by (auto simp: newURI_of_def dest: show_int_inj)

text \<open>The URI of a refresh, at a reading of the clock in November 2024.\<close>

lemma newURI_example:
  "newURI_of demo_config 1730628000123 = ''https://api.example.com/erc8004/metadata?v=1730628000''"
  by (simp add: newURI_of_def version_of_def demo_config_def show_int_def show_nat.simps
        digit_char_def char_of_def bit_0)

text \<open>
  C9, as amended. The claim says that the token is strictly increasing, so that any two
  refreshes carry different URIs. The token is the clock in whole seconds: it never
  decreases while the clock does not, two refreshes carry the same URI exactly when their
  clock readings fall in the same second, and refreshes at least one second apart carry
  different URIs.
\<close>

theorem cache_busting_token:
  "(t1 \<le> t2 \<longrightarrow> version_of t1 \<le> version_of t2) \<and>
   (newURI_of cfg t1 = newURI_of cfg t2 \<longleftrightarrow> version_of t1 = version_of t2) \<and>
   (t1 + 1000 \<le> t2 \<longrightarrow> newURI_of cfg t1 \<noteq> newURI_of cfg t2)"
proof (intro conjI impI)
  assume "t1 \<le> t2"
  then show "version_of t1 \<le> version_of t2"
    by (simp add: version_of_def zdiv_mono1)
next
  show "newURI_of cfg t1 = newURI_of cfg t2 \<longleftrightarrow> version_of t1 = version_of t2"
    by (rule newURI_eq_iff)
next
  assume "t1 + 1000 \<le> t2"
  then have "(t1 + 1000) div 1000 \<le> t2 div 1000" by (rule zdiv_mono1) simp
  then have "version_of t1 < version_of t2" by (simp add: version_of_def)
  then show "newURI_of cfg t1 \<noteq> newURI_of cfg t2" by (simp add: newURI_eq_iff)
qed

theorem cache_busting_token_witness:
  "(1000::int) \<le> 2000 \<and> version_of 1000 \<le> version_of 2000 \<and> (1000::int) + 1000 \<le> 2000 \<and>
   newURI_of demo_config 1000 \<noteq> newURI_of demo_config 2000"
  using cache_busting_token [of 1000 2000 demo_config] by auto

text \<open>
  The claim as stated fails for two refreshes within one second: the later one, 999
  milliseconds after the first, carries the same URI.
\<close>

theorem same_second_counterexample:
  "(1000::int) < 1999 \<and> newURI_of demo_config 1000 = newURI_of demo_config 1999"
  by (simp add: newURI_of_def version_of_def)

subsection \<open>One refresh against the network\<close>

lemmas updater_defs = updateTokenURI_def cron_callback_def triggerUpdate_def
  provider_getFeeData_def registry_setAgentURI_def tx_wait_def Let_def

lemma update_never_rejects: "snd (run net (updateTokenURI cfg now)) = Inr ()"
  by (simp add: updater_defs split: settled.split)

lemma trigger_reply: "snd (run net (triggerUpdate True cfg now)) = Inr ''Update triggered''"
  by (simp add: updater_defs split: settled.split)

subsection \<open>A running process stays calm\<close>

lemma quiet_updateTokenURI: "quiet (updateTokenURI cfg now)"
  by (simp add: updater_defs)

lemma quiet_cron_callback: "quiet (cron_callback cfg now)"
  by (simp add: updater_defs)

lemma quiet_triggerUpdate: "quiet (triggerUpdate b cfg now)"
  by (simp add: updater_defs)

lemma quiet_advance: "quiet c \<Longrightarrow> quiet (snd (advance c))"
  by (induction c) auto

lemma in_place_NoneD: "x \<in> set (place slot None js) \<Longrightarrow> x \<in> set js"
  by (cases slot) (auto dest: in_set_takeD in_set_dropD)

lemma in_place_SomeD: "x \<in> set (place slot (Some j) js) \<Longrightarrow> x = j \<or> x \<in> set js"
  by (cases slot) (auto dest: set_update_subset_insert [THEN subsetD])

lemma calm_proceed: "calm st \<Longrightarrow> job_quiet j \<Longrightarrow> calm (proceed j slot st)"
proof (cases j)
  case (Timer_job c)
  assume "calm st" "job_quiet j"
  with Timer_job have q: "quiet (snd (advance c))" by (simp add: quiet_advance)
  with \<open>calm st\<close> Timer_job show ?thesis
    by (cases "snd (advance c)")
       (auto simp: calm_def Let_def dest!: in_place_NoneD in_place_SomeD)
next
  case (Manual_job c)
  assume "calm st" "job_quiet j"
  with Manual_job have q: "quiet (snd (advance c))" by (simp add: quiet_advance)
  with \<open>calm st\<close> Manual_job show ?thesis
    by (cases "snd (advance c)")
       (auto simp: calm_def Let_def dest!: in_place_NoneD in_place_SomeD)
qed

lemma quiet_fee_settled: "quiet c \<Longrightarrow> fee_settled c r = Some c' \<Longrightarrow> quiet c'"
  by (cases "(c, r)" rule: fee_settled.cases) auto

lemma quiet_send_settled: "quiet c \<Longrightarrow> send_settled c r = Some c' \<Longrightarrow> quiet c'"
  by (cases "(c, r)" rule: send_settled.cases) auto

lemma quiet_receipt_settled: "quiet c \<Longrightarrow> receipt_settled c r = Some c' \<Longrightarrow> quiet c'"
  by (cases "(c, r)" rule: receipt_settled.cases) auto

lemma quiet_resume: "job_quiet j \<Longrightarrow> resume ev j = Some j' \<Longrightarrow> job_quiet j'"
  by (cases "(ev, j)" rule: resume.cases)
     (auto dest: quiet_fee_settled quiet_send_settled quiet_receipt_settled)

lemma calm_settle: "calm st \<Longrightarrow> calm (settle i ev st)"
proof -
  assume c: "calm st"
  show ?thesis
  proof (cases "i < length (in_flight st)")
    case False
    with c show ?thesis by (simp add: settle_def)
  next
    case True
    with c have q: "job_quiet (in_flight st ! i)" by (simp add: calm_def)
    show ?thesis
    proof (cases "resume ev (in_flight st ! i)")
      case None
      with c True show ?thesis by (simp add: settle_def)
    next
      case (Some j)
      with q have "job_quiet j" by (rule quiet_resume)
      with c have "calm (proceed j (Some i) st)" by (rule calm_proceed)
      with True Some show ?thesis by (simp add: settle_def)
    qed
  qed
qed

lemma calm_step: "calm st \<Longrightarrow> calm (step cfg ev st)"
proof (cases ev)
  case (Cron_tick now)
  assume "calm st"
  then have "calm (proceed (Timer_job (cron_callback cfg now)) None st)"
    by (rule calm_proceed) (simp add: quiet_cron_callback)
  with \<open>calm st\<close> Cron_tick show ?thesis by (simp del: proceed.simps)
next
  case (Warmup_timeout now)
  assume "calm st"
  then have "calm (st\<lparr> warmup_pending := False \<rparr>)" by (simp add: calm_def)
  then have "calm (proceed (Timer_job (updateTokenURI cfg now)) None
                     (st\<lparr> warmup_pending := False \<rparr>))"
    by (rule calm_proceed) (simp add: quiet_updateTokenURI)
  with \<open>calm st\<close> Warmup_timeout show ?thesis by (simp del: proceed.simps)
next
  case (Trigger_update now)
  assume "calm st"
  then have "calm (proceed (Manual_job (triggerUpdate (registry_defined st) cfg now)) None st)"
    by (rule calm_proceed) (simp add: quiet_triggerUpdate)
  with Trigger_update show ?thesis by (simp del: proceed.simps)
qed (simp_all add: calm_settle)

lemma calm_init: "initUpdater lib cfg boot = Inr st \<Longrightarrow> calm st"
  by (auto simp: calm_def initUpdater_def boot_def split: if_splits)

lemma running_calm: "running lib cfg st \<Longrightarrow> calm st"
  by (induction rule: running.induct) (auto intro: calm_init calm_step)

subsection \<open>Triggers and failing cycles, step by step\<close>

text \<open>
  A cron tick, a manual trigger of a configured updater, or the warm-up timer puts a new
  call in flight behind those already there; when its fee query is answered it sends its
  transaction.
\<close>

lemma tick_submits:
  assumes "cron_scheduled st"
  shows "map job_pending (in_flight (steps cfg
           [Cron_tick now, Fee_data_settles (length (in_flight st)) (Fulfilled g)] st)) =
         map job_pending (in_flight st) @
           [Some (Send_request (config_agentId cfg) (newURI_of cfg now))]"
  using assms by (simp add: updater_defs settle_def nth_append list_update_append)



lemma warmup_submits:
  assumes "warmup_pending st"
  shows "map job_pending (in_flight (steps cfg
           [Warmup_timeout now, Fee_data_settles (length (in_flight st)) (Fulfilled g)] st)) =
         map job_pending (in_flight st) @
           [Some (Send_request (config_agentId cfg) (newURI_of cfg now))]"
  using assms by (simp add: updater_defs settle_def nth_append list_update_append)



lemma failing_cycle_effect:
  assumes "cron_scheduled st"
  shows "steps cfg (failing_cycle now (length (in_flight st)) f) st =
           st\<lparr> console := console st @ lines_before cfg now f @ [Error_failed (cause f)] \<rparr>"
  using assms
  by (cases f) (simp_all add: updater_defs settle_def nth_append list_update_append)

lemma trigger_settles:
  assumes "registry_defined st"
  shows "replies (steps cfg
           [Trigger_update now,
            Fee_data_settles (length (in_flight st)) r1,
            Send_settles (length (in_flight st)) r2,
            Receipt_settles (length (in_flight st)) r3] st) =
         replies st @ [Inr ''Update triggered'']"
  using assms
  by (cases r1; cases r2; cases r3)
     (simp_all add: updater_defs settle_def nth_append list_update_append)

lemma steps_append: "steps cfg (evs @ evs') st = steps cfg evs' (steps cfg evs st)"
  by (induction evs arbitrary: st) simp_all

subsection \<open>The example process\<close>

lemma started_by_init: "initUpdater demo_library demo_config boot = Inr started"
  by (simp add: initUpdater_def demo_library_def started_def)
     (simp add: demo_config_def boot_def)

lemma started_state:
  "registry_defined started" "cron_scheduled started" "warmup_pending started"
  "in_flight started = []" "replies started = []" "unhandled started = []"
  by (simp_all add: started_def boot_def)

lemma running_started: "running demo_library demo_config started"
  using started_by_init by (rule running_init)


subsection \<open>Overlapping triggers\<close>




subsection \<open>Failures of a refresh\<close>

text \<open>
  C8. \<open>updateTokenURI\<close> never rejects, whatever the network does. In a running process
  nothing is ever unhandled. A refresh started by a tick that fails at the fee query, at
  the submission or at the confirmation leaves the process as it was before the tick but
  for the console, where the failure is written last: the call has left, nothing is
  unhandled, the cron job is still scheduled. The next tick then starts a refresh that,
  once its fee query is answered, sends a transaction with its own new URI.
\<close>

theorem refresh_failures_absorbed:
  assumes "running lib cfg st" and "cron_scheduled st"
  shows "snd (run net (updateTokenURI cfg now)) = Inr () \<and>
         unhandled st = [] \<and>
         steps cfg (failing_cycle now (length (in_flight st)) f) st =
           st\<lparr> console := console st @ lines_before cfg now f @ [Error_failed (cause f)] \<rparr> \<and>
         map job_pending (in_flight (steps cfg
           (failing_cycle now (length (in_flight st)) f @
            [Cron_tick now', Fee_data_settles (length (in_flight st)) (Fulfilled g)]) st)) =
         map job_pending (in_flight st) @
           [Some (Send_request (config_agentId cfg) (newURI_of cfg now'))]"
proof -
  let ?st' = "st\<lparr> console := console st @ lines_before cfg now f @ [Error_failed (cause f)] \<rparr>"
  have fail: "steps cfg (failing_cycle now (length (in_flight st)) f) st = ?st'"
    using assms(2) by (rule failing_cycle_effect)
  have "cron_scheduled ?st'" using assms(2) by simp
  then have "map job_pending (in_flight (steps cfg
               [Cron_tick now', Fee_data_settles (length (in_flight ?st')) (Fulfilled g)] ?st')) =
             map job_pending (in_flight ?st') @
               [Some (Send_request (config_agentId cfg) (newURI_of cfg now'))]"
    by (rule tick_submits)
  then have nxt: "map job_pending (in_flight (steps cfg
           (failing_cycle now (length (in_flight st)) f @
            [Cron_tick now', Fee_data_settles (length (in_flight st)) (Fulfilled g)]) st)) =
         map job_pending (in_flight st) @
           [Some (Send_request (config_agentId cfg) (newURI_of cfg now'))]"
    by (simp add: steps_append fail del: steps.simps)
  from assms(1) have "unhandled st = []"
    using running_calm by (auto simp: calm_def)
  with fail nxt update_never_rejects show ?thesis by blast
qed

theorem refresh_failures_absorbed_witness:
  "initUpdater demo_library demo_config boot = Inr started \<and>
   running demo_library demo_config started \<and> cron_scheduled started \<and>
   snd (run failing_network (updateTokenURI demo_config 21600000)) = Inr () \<and>
   unhandled started = [] \<and>
   steps demo_config
     [Cron_tick 21600000, Fee_data_settles 0 (Fulfilled (Some 5)),
      Send_settles 0 (Rejected ''nonce too low'')] started =
     started\<lparr> console := console started @
       [Log_updating 1, Log_new_uri (newURI_of demo_config 21600000), Log_gas_price 5,
        Error_failed ''nonce too low''] \<rparr> \<and>
   map job_pending (in_flight (steps demo_config
     [Cron_tick 21600000, Fee_data_settles 0 (Fulfilled (Some 5)),
      Send_settles 0 (Rejected ''nonce too low''),
      Cron_tick 43200000, Fee_data_settles 0 (Fulfilled (Some 5))] started)) =
     [Some (Send_request 1 (newURI_of demo_config 43200000))]"
proof -
  have a: "config_agentId demo_config = 1" by (simp add: demo_config_def)
  show ?thesis
    using refresh_failures_absorbed [OF running_started started_state(2),
        of failing_network 21600000 "Submission_fails (Some 5) ''nonce too low''"
           43200000 "Some 5"]
    by (simp add: a started_state running_started started_by_init del: steps.simps)
qed

subsection \<open>What a manual trigger returns\<close>

text \<open>
  C10. With \<open>registry\<close> defined, \<open>triggerUpdate\<close> fulfils with "Update triggered" whatever
  the network does: run against any network it returns that string, and in the process
  the caller receives that string as soon as the refresh has ended, whether the fee query,
  the submission and the confirmation were fulfilled or rejected. The value is the same
  after a failed refresh and after a successful one.
\<close>

theorem manual_trigger_reply:
  assumes "registry_defined st"
  shows "snd (run net (triggerUpdate (registry_defined st) cfg now)) = Inr ''Update triggered'' \<and>
         replies (steps cfg
           [Trigger_update now,
            Fee_data_settles (length (in_flight st)) r1,
            Send_settles (length (in_flight st)) r2,
            Receipt_settles (length (in_flight st)) r3] st) =
         replies st @ [Inr ''Update triggered'']"
  using assms trigger_reply [of net cfg now] trigger_settles [of st cfg now r1 r2 r3]
  by simp

theorem manual_trigger_reply_witness:
  "registry_defined started \<and>
   snd (run failing_network (triggerUpdate (registry_defined started) demo_config 21601000)) =
     Inr ''Update triggered'' \<and>
   replies (steps demo_config
     [Trigger_update 21601000, Fee_data_settles 0 (Fulfilled (Some 5)),
      Send_settles 0 (Rejected ''nonce too low''),
      Receipt_settles 0 (Fulfilled None)] started) = [Inr ''Update triggered''] \<and>
   replies (steps demo_config
     [Trigger_update 21601000, Fee_data_settles 0 (Fulfilled (Some 5)),
      Send_settles 0 (Fulfilled ''0xabc''),
      Receipt_settles 0 (Fulfilled (Some (7, 21000)))] started) = [Inr ''Update triggered'']"
  using manual_trigger_reply [OF started_state(1),
      of failing_network demo_config 21601000 "Fulfilled (Some 5)"
         "Rejected ''nonce too low''" "Fulfilled None"]
    manual_trigger_reply [OF started_state(1),
      of failing_network demo_config 21601000 "Fulfilled (Some 5)"
         "Fulfilled ''0xabc''" "Fulfilled (Some (7, 21000))"]
  by (simp add: started_state del: steps.simps)

end
